theory Spec2Isabelle
  imports Main "HOL-Library.Finite_Map" "HOL-Library.Sublist" "HOL-Library.Signed_Division"
begin

section \<open>Data model of the event dispatcher\<close>

text \<open>
  The development embeds \<^verbatim>\<open>pkg/event_dispatcher/event_dispatcher.go\<close>.

  \<^item> A Go \<^verbatim>\<open>map[string]interface{}\<close> is a reference that may be \<^verbatim>\<open>nil\<close>: it is a
    partial map under an \<open>option\<close>, \<open>None\<close> being the nil map. \<^verbatim>\<open>event.Event\<close> is this
    type. The type \<open>'v\<close> stands for the dynamic values.
  \<^item> An action is an arbitrary Go closure: it may read and change anything outside the
    dispatcher (the tests switch a package variable between calls). The outside is the
    \<open>world\<close>: the wall clock read by \<^verbatim>\<open>time.Now()\<close> and an external state \<open>'x\<close>. \<open>Do\<close>
    takes the world and returns the new one together with either the message of the
    returned error (\<open>Inl\<close>) or the output map (\<open>Inr\<close>); the dispatcher never looks at the
    output when the error is not nil. Actions are taken to return, as the type of \<^verbatim>\<open>Do\<close>
    says: a nil \<^verbatim>\<open>Do\<close> or a panicking action is outside the model, and so is an action
    that writes into the event map it is given.
  \<^item> An \<^verbatim>\<open>error\<close> is either one of the two package-level values or a value built by
    \<^verbatim>\<open>fmt.Errorf\<close>, which is its formatted message.
  \<^item> Job ids are Go \<^verbatim>\<open>int\<close>s (64 bits). The counter only grows by one per stored
    snapshot, so it cannot wrap before memory is exhausted; ids are modelled as \<open>int\<close>.
  \<^item> Every public method holds the mutex from entry to exit, so each one is an atomic
    state transformer on the dispatcher; the mutex itself is not part of the state.
  \<^item> Slices have value semantics here: \<^verbatim>\<open>HandleEvent\<close> copies the registry into a
    fresh array (\<^verbatim>\<open>append(d.actions[:0:0], d.actions...)\<close>), so no snapshot shares an
    array with \<^verbatim>\<open>d.actions\<close>, and a snapshot's own arrays are only resliced or
    appended to through a fresh snapshot.
\<close>

type_synonym 'v gomap = "(string \<rightharpoonup> 'v) option"

record 'x world =
  clock :: string
  ext :: 'x

record ('c, 'v, 'x) Action =
  Name :: string
  Do :: "'c \<Rightarrow> 'v gomap \<Rightarrow> 'x world \<Rightarrow> (string + 'v gomap) \<times> 'x world"

record 'v actionResult =
  ResultName :: string
  Input :: "'v gomap"
  Output :: "'v gomap"
  Timestamp :: string

record ('c, 'v, 'x) snapshot =
  Id' :: int
  Event :: "'v gomap"
  ActionsResults :: "'v actionResult list"
  Context :: 'c
  Success :: bool
  actionsToProcess :: "('c, 'v, 'x) Action list"

record ('c, 'v, 'x) EventDispatcher =
  actions :: "('c, 'v, 'x) Action list"
  currentJobId :: int
  snapshots :: "(int, ('c, 'v, 'x) snapshot) fmap"

datatype error =
  ErrorInvalidJobId
  | ErrorSucceededJobRetryCall
  | Errorf string

text \<open>
  Reading a field through a nil pointer panics. The only place where the dispatcher
  itself can do so is the lookup of a snapshot that is not in the map.
\<close>

datatype 'a outcome = Returns 'a | NilDereference

section \<open>Operations\<close>

definition NewEventDispatcher :: "('c, 'v, 'x) EventDispatcher" where
  "NewEventDispatcher = \<lparr>actions = [], currentJobId = 0, snapshots = fmempty\<rparr>"

text \<open>The search loop of \<^verbatim>\<open>AddAction\<close>: is there a registered action of that name?\<close>

fun nameExists :: "string \<Rightarrow> ('c, 'v, 'x) Action list \<Rightarrow> bool" where
  "nameExists n [] = False"
| "nameExists n (a # as) = (if n = Name a then True else nameExists n as)"

definition AddAction ::
  "('c, 'v, 'x) Action \<Rightarrow> ('c, 'v, 'x) EventDispatcher
     \<Rightarrow> error option \<times> ('c, 'v, 'x) EventDispatcher" where
  "AddAction act d =
     (if nameExists (Name act) (actions d)
      then (Some (Errorf (''action with name '' @ Name act @ '' already exists'')), d)
      else (None, d\<lparr>actions := actions d @ [act]\<rparr>))"

text \<open>
  The loop of \<^verbatim>\<open>RemoveAction\<close>: the list without the first action of that name, or
  \<open>None\<close> when the loop ends without finding one.
\<close>

fun removeFirst :: "string \<Rightarrow> ('c, 'v, 'x) Action list \<Rightarrow> ('c, 'v, 'x) Action list option" where
  "removeFirst n [] = None"
| "removeFirst n (a # as) =
     (if n = Name a then Some as else map_option ((#) a) (removeFirst n as))"

definition RemoveAction ::
  "('c, 'v, 'x) Action \<Rightarrow> ('c, 'v, 'x) EventDispatcher
     \<Rightarrow> error option \<times> ('c, 'v, 'x) EventDispatcher" where
  "RemoveAction act d =
     (case removeFirst (Name act) (actions d) of
        Some as \<Rightarrow> (None, d\<lparr>actions := as\<rparr>)
      | None \<Rightarrow> (Some (Errorf (''action '' @ Name act @ '' doesn't exist'')), d))"

text \<open>
  The \<^verbatim>\<open>for\<close> loop of \<^verbatim>\<open>handleEventByActions\<close> together with the assignment
  \<^verbatim>\<open>result.Success = true\<close> that follows it. The list argument is the loop's
  \<^verbatim>\<open>result.actionsToProcess\<close>; the snapshot under construction is threaded through. The
  value is the returned error, the snapshot as the deferred function will store it, the
  world after the last call, and the names of the actions that were called, in call
  order. That last component is an observation added by the model: the source keeps no
  such log.
\<close>

fun processActions ::
  "'c \<Rightarrow> 'v gomap \<Rightarrow> ('c, 'v, 'x) Action list \<Rightarrow> ('c, 'v, 'x) snapshot \<Rightarrow> 'x world
     \<Rightarrow> error option \<times> ('c, 'v, 'x) snapshot \<times> 'x world \<times> string list" where
  "processActions ctx event [] result w = (None, result\<lparr>Success := True\<rparr>, w, [])"
| "processActions ctx event (action # rest) result w =
     (case Do action ctx event w of
        (Inl err, w') \<Rightarrow>
          (Some (Errorf (Name action @ '' action failed: '' @ err)), result, w', [Name action])
      | (Inr output, w') \<Rightarrow>
          (case processActions ctx event rest
                  (result\<lparr>ActionsResults := ActionsResults result @
                             [\<lparr>ResultName = Name action, Input = event, Output = output,
                               Timestamp = clock w'\<rparr>],
                          actionsToProcess := rest\<rparr>) w' of
             (e, result', w'', called) \<Rightarrow> (e, result', w'', Name action # called)))"

definition handleEventByActions ::
  "'c \<Rightarrow> 'v gomap \<Rightarrow> ('c, 'v, 'x) Action list \<Rightarrow> int \<Rightarrow> ('c, 'v, 'x) EventDispatcher
     \<Rightarrow> 'x world \<Rightarrow> error option \<times> ('c, 'v, 'x) EventDispatcher \<times> 'x world \<times> string list" where
  "handleEventByActions ctx event acts jobId d w =
     (let result = \<lparr>Id' = jobId, Event = event, ActionsResults = [], Context = ctx,
                    Success = False, actionsToProcess = acts\<rparr>
      in case processActions ctx event acts result w of
           (e, result', w', called) \<Rightarrow>
             (e, d\<lparr>snapshots := fmupd jobId result' (snapshots d)\<rparr>, w', called))"

definition HandleEvent ::
  "'c \<Rightarrow> 'v gomap \<Rightarrow> ('c, 'v, 'x) EventDispatcher \<Rightarrow> 'x world
     \<Rightarrow> int \<times> error option \<times> ('c, 'v, 'x) EventDispatcher \<times> 'x world \<times> string list" where
  "HandleEvent ctx event d w =
     (let acts = actions d;
          jobId = currentJobId d;
          d1 = d\<lparr>currentJobId := currentJobId d + 1\<rparr>
      in (jobId, handleEventByActions ctx event acts jobId d1 w))"

definition validateRetryJobId ::
  "int \<Rightarrow> ('c, 'v, 'x) EventDispatcher \<Rightarrow> error option outcome" where
  "validateRetryJobId jobId d =
     (if jobId \<ge> int (fcard (fmdom (snapshots d))) \<or> jobId < 0
      then Returns (Some ErrorInvalidJobId)
      else case fmlookup (snapshots d) jobId of
             None \<Rightarrow> NilDereference
           | Some s \<Rightarrow> if Success s then Returns (Some ErrorSucceededJobRetryCall)
                       else Returns None)"

definition RetryJob ::
  "int \<Rightarrow> ('c, 'v, 'x) EventDispatcher \<Rightarrow> 'x world
     \<Rightarrow> (error option \<times> ('c, 'v, 'x) EventDispatcher \<times> 'x world \<times> string list) outcome" where
  "RetryJob jobId d w =
     (case validateRetryJobId jobId d of
        NilDereference \<Rightarrow> NilDereference
      | Returns (Some err) \<Rightarrow> Returns (Some err, d, w, [])
      | Returns None \<Rightarrow>
          (case fmlookup (snapshots d) jobId of
             None \<Rightarrow> NilDereference
           | Some storedSnapshot \<Rightarrow>
               Returns (handleEventByActions (Context storedSnapshot) (Event storedSnapshot)
                          (actionsToProcess storedSnapshot) jobId d w)))"

section \<open>Notions used to state the properties\<close>

text \<open>
  \<open>succeedAll ctx event acts w\<close> calls the actions of \<open>acts\<close> one after the other, as the
  loop does, each in the world its predecessor left: it is the world after the last call
  when none of them returns an error, and \<open>None\<close> as soon as one does. It says "the
  first \<open>k - 1\<close> actions succeed" without mentioning snapshots.
\<close>

fun succeedAll ::
  "'c \<Rightarrow> 'v gomap \<Rightarrow> ('c, 'v, 'x) Action list \<Rightarrow> 'x world \<Rightarrow> 'x world option" where
  "succeedAll ctx event [] w = Some w"
| "succeedAll ctx event (a # as) w =
     (case Do a ctx event w of
        (Inl err, w') \<Rightarrow> None
      | (Inr output, w') \<Rightarrow> succeedAll ctx event as w')"

text \<open>
  \<open>dispatched ids d\<close>: the dispatcher state \<open>d\<close> is reached from a new dispatcher by
  calls of the four public methods, in any order and with any arguments, the world being
  arbitrary at each call (the callers and the actions may have changed it in between);
  \<open>ids\<close> lists the job ids that the calls of \<^verbatim>\<open>HandleEvent\<close> returned, in call order.
  \<^verbatim>\<open>RetryJob\<close> returns an error only, so it adds nothing to \<open>ids\<close>.
\<close>

inductive dispatched :: "int list \<Rightarrow> ('c, 'v, 'x) EventDispatcher \<Rightarrow> bool" where
  fresh: "dispatched [] NewEventDispatcher"
| add: "dispatched ids d \<Longrightarrow> AddAction act d = (e, d') \<Longrightarrow> dispatched ids d'"
| remove: "dispatched ids d \<Longrightarrow> RemoveAction act d = (e, d') \<Longrightarrow> dispatched ids d'"
| handle: "dispatched ids d \<Longrightarrow> HandleEvent ctx event d w = (jobId, e, d', w', called)
     \<Longrightarrow> dispatched (ids @ [jobId]) d'"
| retry: "dispatched ids d \<Longrightarrow> RetryJob jobId d w = Returns (e, d', w', called)
     \<Longrightarrow> dispatched ids d'"

text \<open>
  Observations of a call: the dispatcher a call of \<open>HandleEvent\<close> or \<open>RetryJob\<close> leaves
  behind (a panicking \<open>RetryJob\<close> has changed nothing), the error and the called actions
  of a retry, and what is stored under a job id: \<open>Success\<close> with the names of the recorded
  results and of the pending actions, or with the lengths of the two lists.
\<close>

definition stateAfterHandleEvent ::
  "'c \<Rightarrow> 'v gomap \<Rightarrow> ('c, 'v, 'x) EventDispatcher \<Rightarrow> 'x world \<Rightarrow> ('c, 'v, 'x) EventDispatcher" where
  "stateAfterHandleEvent ctx event d w = fst (snd (snd (HandleEvent ctx event d w)))"

definition stateAfterRetryJob ::
  "int \<Rightarrow> ('c, 'v, 'x) EventDispatcher \<Rightarrow> 'x world \<Rightarrow> ('c, 'v, 'x) EventDispatcher" where
  "stateAfterRetryJob jobId d w =
     (case RetryJob jobId d w of Returns (e, d', w', called) \<Rightarrow> d' | NilDereference \<Rightarrow> d)"

definition retryOutcome ::
  "int \<Rightarrow> ('c, 'v, 'x) EventDispatcher \<Rightarrow> 'x world \<Rightarrow> (error option \<times> string list) outcome" where
  "retryOutcome jobId d w =
     (case RetryJob jobId d w of
        Returns (e, d', w', called) \<Rightarrow> Returns (e, called)
      | NilDereference \<Rightarrow> NilDereference)"

definition snapshotSummary :: "('c, 'v, 'x) snapshot \<Rightarrow> bool \<times> string list \<times> string list" where
  "snapshotSummary s =
     (Success s, map ResultName (ActionsResults s), map Name (actionsToProcess s))"

definition storedSummary ::
  "('c, 'v, 'x) EventDispatcher \<Rightarrow> int \<Rightarrow> (bool \<times> string list \<times> string list) option" where
  "storedSummary d jobId = map_option snapshotSummary (fmlookup (snapshots d) jobId)"

definition storedCounts ::
  "('c, 'v, 'x) EventDispatcher \<Rightarrow> int \<Rightarrow> (bool \<times> nat \<times> nat) option" where
  "storedCounts d jobId =
     map_option (\<lambda>s. (Success s, length (ActionsResults s), length (actionsToProcess s)))
       (fmlookup (snapshots d) jobId)"

section \<open>The actions of the test suite\<close>

text \<open>
  The fixtures of \<^verbatim>\<open>event_dispatcher_test.go\<close>. The values of the test events are Go
  \<^verbatim>\<open>int\<close>s or something else; the external state is the package variable
  \<^verbatim>\<open>straightCheckErr\<close>, an error message or nil; the context is always
  \<^verbatim>\<open>context.Background()\<close>, the one value of \<open>unit\<close>. The quotient is Go's truncating
  division (the tests stay far from the 64-bit bounds).
\<close>

datatype dyn = DInt int | DOther

text \<open>Reading a key of a Go map; a nil map has no keys.\<close>

definition index :: "'v gomap \<Rightarrow> string \<Rightarrow> 'v option" where
  "index m k = (case m of None \<Rightarrow> None | Some f \<Rightarrow> f k)"

definition setStraightCheckErr :: "string option \<Rightarrow> string option world \<Rightarrow> string option world" where
  "setStraightCheckErr err w = w\<lparr>ext := err\<rparr>"

definition actionStraightCheck :: "(unit, dyn, string option) Action" where
  "actionStraightCheck =
     \<lparr>Name = ''straight_check'',
      Do = (\<lambda>ctx input w. (case ext w of None \<Rightarrow> Inr None | Some err \<Rightarrow> Inl err, w))\<rparr>"

definition actionDivider :: "(unit, dyn, string option) Action" where
  "actionDivider =
     \<lparr>Name = ''divider'',
      Do = (\<lambda>ctx input w.
        (case index input ''dividend'' of
           None \<Rightarrow> Inl ''no dividend passed''
         | Some DOther \<Rightarrow> Inl ''the passed dividend expected to be of type int''
         | Some (DInt intDividend) \<Rightarrow>
            (case index input ''divider'' of
               None \<Rightarrow> Inl ''no divider passed''
             | Some DOther \<Rightarrow> Inl ''the passed divider expected to be of type int''
             | Some (DInt intDivider) \<Rightarrow>
                 if intDivider = 0 then Inl ''the passed divider shouldn't be equal to zero''
                 else Inr (Some [''result'' \<mapsto> DInt (intDividend sdiv intDivider)])),
         w))\<rparr>"

definition actionEnpty :: "(unit, dyn, string option) Action" where
  "actionEnpty = \<lparr>Name = ''empty_action'', Do = (\<lambda>ctx input w. (Inr None, w))\<rparr>"

text \<open>\<^verbatim>\<open>buildDispatcher\<close>: a new dispatcher with the two actions of the tests.\<close>

definition buildDispatcher :: "(unit, dyn, string option) EventDispatcher" where
  "buildDispatcher =
     snd (AddAction actionDivider (snd (AddAction actionStraightCheck NewEventDispatcher)))"

text \<open>
  The states of the test suite that the examples below start from: the dispatcher of
  \<^verbatim>\<open>buildDispatcher\<close> after \<^verbatim>\<open>TestHandleSingleEvent\<close>'s event (the job succeeds) and
  after \<^verbatim>\<open>TestHandleEventWithFail\<close>'s event (the divider fails), with no error set for
  the straight check.
\<close>

definition world0 :: "string option world" where
  "world0 = \<lparr>clock = ''t0'', ext = None\<rparr>"

definition event_10_5 :: "dyn gomap" where
  "event_10_5 = Some [''dividend'' \<mapsto> DInt 10, ''divider'' \<mapsto> DInt 5]"

definition event_10_0 :: "dyn gomap" where
  "event_10_0 = Some [''dividend'' \<mapsto> DInt 10, ''divider'' \<mapsto> DInt 0]"

definition afterSucceededJob :: "(unit, dyn, string option) EventDispatcher" where
  "afterSucceededJob = stateAfterHandleEvent () event_10_5 buildDispatcher world0"

definition afterFailedJob :: "(unit, dyn, string option) EventDispatcher" where
  "afterFailedJob = stateAfterHandleEvent () event_10_0 buildDispatcher world0"

text \<open>
  Two further states. In the first, the straight check fails at dispatch
  (\<^verbatim>\<open>setStraightCheckErr\<close> as in \<^verbatim>\<open>TestRetryFailedJob\<close>), so both actions are pending and
  the job can be retried once the error is cleared. In the second, the registry is the
  empty action followed by the straight check, and the straight check fails: the first
  action has completed and the second is pending.
\<close>

definition worldErr :: "string option world" where
  "worldErr = setStraightCheckErr (Some ''an error'') world0"


definition emptyThenCheck :: "(unit, dyn, string option) EventDispatcher" where
  "emptyThenCheck =
     snd (AddAction actionStraightCheck (snd (AddAction actionEnpty NewEventDispatcher)))"

definition afterSecondFails :: "(unit, dyn, string option) EventDispatcher" where
  "afterSecondFails = stateAfterHandleEvent () event_10_5 emptyThenCheck worldErr"

section \<open>The loop over the pending actions\<close>

lemma succeedAll_append:
  "succeedAll ctx ev (xs @ ys) w =
     (case succeedAll ctx ev xs w of None \<Rightarrow> None | Some w1 \<Rightarrow> succeedAll ctx ev ys w1)"
  by (induction xs arbitrary: w) (auto split: prod.splits sum.splits)

lemma processActions_fails:
  assumes "succeedAll ctx ev pre w = Some w1"
    and "Do a ctx ev w1 = (Inl cause, w2)"
    and "actionsToProcess result = pre @ a # post"
  shows "\<exists>rs. processActions ctx ev (pre @ a # post) result w =
           (Some (Errorf (Name a @ '' action failed: '' @ cause)),
            result\<lparr>ActionsResults := ActionsResults result @ rs, actionsToProcess := a # post\<rparr>,
            w2, map Name pre @ [Name a])
         \<and> map ResultName rs = map Name pre"
  using assms
proof (induction pre arbitrary: w result)
  case Nil
  then show ?case by simp
next
  case (Cons b pre)
  from Cons.prems(1) obtain out w' where b: "Do b ctx ev w = (Inr out, w')"
    and rest: "succeedAll ctx ev pre w' = Some w1"
    by (auto split: prod.splits sum.splits)
  let ?r = "\<lparr>ResultName = Name b, Input = ev, Output = out, Timestamp = clock w'\<rparr>"
  let ?res = "result\<lparr>ActionsResults := ActionsResults result @ [?r],
                     actionsToProcess := pre @ a # post\<rparr>"
  from Cons.IH[OF rest Cons.prems(2), of ?res] obtain rs where
    rs: "processActions ctx ev (pre @ a # post) ?res w' =
           (Some (Errorf (Name a @ '' action failed: '' @ cause)),
            ?res\<lparr>ActionsResults := ActionsResults ?res @ rs, actionsToProcess := a # post\<rparr>,
            w2, map Name pre @ [Name a])"
    and nm: "map ResultName rs = map Name pre"
    by auto
  show ?case
    by (rule exI[of _ "?r # rs"]) (simp add: b rs nm)
qed

lemma processActions_succeeds:
  assumes "succeedAll ctx ev acts w = Some w1"
    and "actionsToProcess result = acts"
  shows "\<exists>rs. processActions ctx ev acts result w =
           (None,
            result\<lparr>ActionsResults := ActionsResults result @ rs, actionsToProcess := [],
                   Success := True\<rparr>,
            w1, map Name acts)
         \<and> map ResultName rs = map Name acts"
  using assms
proof (induction acts arbitrary: w result)
  case Nil
  then show ?case by simp
next
  case (Cons b acts)
  from Cons.prems(1) obtain out w' where b: "Do b ctx ev w = (Inr out, w')"
    and rest: "succeedAll ctx ev acts w' = Some w1"
    by (auto split: prod.splits sum.splits)
  let ?r = "\<lparr>ResultName = Name b, Input = ev, Output = out, Timestamp = clock w'\<rparr>"
  let ?res = "result\<lparr>ActionsResults := ActionsResults result @ [?r],
                     actionsToProcess := acts\<rparr>"
  from Cons.IH[OF rest, of ?res] obtain rs where
    rs: "processActions ctx ev acts ?res w' =
           (None,
            ?res\<lparr>ActionsResults := ActionsResults ?res @ rs, actionsToProcess := [],
                   Success := True\<rparr>,
            w1, map Name acts)"
    and nm: "map ResultName rs = map Name acts"
    by auto
  show ?case
    by (rule exI[of _ "?r # rs"]) (simp add: b rs nm)
qed

lemma succeedAll_cases:
  "succeedAll ctx ev acts w \<noteq> None \<or>
   (\<exists>pre a post w1 cause w2. acts = pre @ a # post \<and> succeedAll ctx ev pre w = Some w1
        \<and> Do a ctx ev w1 = (Inl cause, w2))"
proof (induction acts arbitrary: w)
  case Nil
  then show ?case by simp
next
  case (Cons b acts)
  obtain r w' where b: "Do b ctx ev w = (r, w')" by (cases "Do b ctx ev w")
  show ?case
  proof (cases r)
    case (Inl cause)
    with b have "b # acts = [] @ b # acts \<and> succeedAll ctx ev [] w = Some w
        \<and> Do b ctx ev w = (Inl cause, w')" by simp
    then show ?thesis by blast
  next
    case (Inr out)
    from Cons.IH[of w'] show ?thesis
    proof
      assume "succeedAll ctx ev acts w' \<noteq> None"
      with b Inr show ?thesis by simp
    next
      assume "\<exists>pre a post w1 cause w2. acts = pre @ a # post
          \<and> succeedAll ctx ev pre w' = Some w1 \<and> Do a ctx ev w1 = (Inl cause, w2)"
      then obtain pre a post w1 cause w2 where h: "acts = pre @ a # post"
        "succeedAll ctx ev pre w' = Some w1" "Do a ctx ev w1 = (Inl cause, w2)" by blast
      then have "b # acts = (b # pre) @ a # post \<and> succeedAll ctx ev (b # pre) w = Some w1
          \<and> Do a ctx ev w1 = (Inl cause, w2)" using b Inr by simp
      then show ?thesis by blast
    qed
  qed
qed


lemma succeedAll_fails:
  assumes "succeedAll ctx ev pre w = Some w1" and "Do a ctx ev w1 = (Inl cause, w2)"
  shows "succeedAll ctx ev (pre @ a # post) w = None"
  using assms by (simp add: succeedAll_append)

section \<open>One execution attempt\<close>

text \<open>
  \<open>handleEventByActions\<close> is the execution attempt: \<open>HandleEvent\<close> runs it on a copy of
  the registry, \<open>RetryJob\<close> on the pending list of the stored snapshot.
\<close>

lemma handleEventByActions_succeeds:
  assumes "succeedAll ctx ev acts w = Some w1"
  shows "\<exists>rs. handleEventByActions ctx ev acts jobId d w =
           (None,
            d\<lparr>snapshots := fmupd jobId
                \<lparr>Id' = jobId, Event = ev, ActionsResults = rs, Context = ctx,
                 Success = True, actionsToProcess = []\<rparr> (snapshots d)\<rparr>,
            w1, map Name acts)
         \<and> map ResultName rs = map Name acts"
proof -
  let ?result = "\<lparr>Id' = jobId, Event = ev, ActionsResults = [], Context = ctx,
                   Success = False, actionsToProcess = acts\<rparr>"
  have "actionsToProcess ?result = acts" by simp
  from processActions_succeeds[OF assms this] obtain rs where
    run: "processActions ctx ev acts ?result w =
           (None, ?result\<lparr>ActionsResults := ActionsResults ?result @ rs,
                          actionsToProcess := [], Success := True\<rparr>, w1, map Name acts)"
    and nm: "map ResultName rs = map Name acts" by blast
  have "handleEventByActions ctx ev acts jobId d w =
           (None,
            d\<lparr>snapshots := fmupd jobId
                \<lparr>Id' = jobId, Event = ev, ActionsResults = rs, Context = ctx,
                 Success = True, actionsToProcess = []\<rparr> (snapshots d)\<rparr>,
            w1, map Name acts)"
    unfolding handleEventByActions_def Let_def run by simp
  with nm show ?thesis by (intro exI[of _ rs] conjI)
qed

lemma handleEventByActions_fails:
  assumes "succeedAll ctx ev pre w = Some w1"
    and "Do a ctx ev w1 = (Inl cause, w2)"
  shows "\<exists>rs. handleEventByActions ctx ev (pre @ a # post) jobId d w =
           (Some (Errorf (Name a @ '' action failed: '' @ cause)),
            d\<lparr>snapshots := fmupd jobId
                \<lparr>Id' = jobId, Event = ev, ActionsResults = rs, Context = ctx,
                 Success = False, actionsToProcess = a # post\<rparr> (snapshots d)\<rparr>,
            w2, map Name pre @ [Name a])
         \<and> map ResultName rs = map Name pre"
proof -
  let ?result = "\<lparr>Id' = jobId, Event = ev, ActionsResults = [], Context = ctx,
                   Success = False, actionsToProcess = pre @ a # post\<rparr>"
  have "actionsToProcess ?result = pre @ a # post" by simp
  from processActions_fails[OF assms this] obtain rs where
    run: "processActions ctx ev (pre @ a # post) ?result w =
           (Some (Errorf (Name a @ '' action failed: '' @ cause)),
            ?result\<lparr>ActionsResults := ActionsResults ?result @ rs,
                    actionsToProcess := a # post\<rparr>, w2, map Name pre @ [Name a])"
    and nm: "map ResultName rs = map Name pre" by blast
  have "handleEventByActions ctx ev (pre @ a # post) jobId d w =
           (Some (Errorf (Name a @ '' action failed: '' @ cause)),
            d\<lparr>snapshots := fmupd jobId
                \<lparr>Id' = jobId, Event = ev, ActionsResults = rs, Context = ctx,
                 Success = False, actionsToProcess = a # post\<rparr> (snapshots d)\<rparr>,
            w2, map Name pre @ [Name a])"
    unfolding handleEventByActions_def Let_def run by simp
  with nm show ?thesis by (intro exI[of _ rs] conjI)
qed

text \<open>
  What an attempt leaves, in terms of the attempt's plan only.
\<close>

lemma handleEventByActions_summary:
  "\<exists>e snap w' called.
     handleEventByActions ctx ev acts jobId d w =
       (e, d\<lparr>snapshots := fmupd jobId snap (snapshots d)\<rparr>, w', called)
     \<and> Id' snap = jobId \<and> Event snap = ev \<and> Context snap = ctx
     \<and> Success snap = (e = None)
     \<and> (e = None) = (succeedAll ctx ev acts w \<noteq> None)
     \<and> (Success snap \<longrightarrow> actionsToProcess snap = [] \<and> called = map Name acts)
     \<and> (\<not> Success snap \<longrightarrow> actionsToProcess snap \<noteq> [])
     \<and> length (ActionsResults snap) + length (actionsToProcess snap) = length acts
     \<and> suffix (actionsToProcess snap) acts
     \<and> prefix called (map Name acts)"
proof -
  from succeedAll_cases[of ctx ev acts w] show ?thesis
  proof
    assume "succeedAll ctx ev acts w \<noteq> None"
    then obtain w1 where ok: "succeedAll ctx ev acts w = Some w1" by auto
    from handleEventByActions_succeeds[OF ok, of jobId d] obtain rs where
      run: "handleEventByActions ctx ev acts jobId d w =
           (None,
            d\<lparr>snapshots := fmupd jobId
                \<lparr>Id' = jobId, Event = ev, ActionsResults = rs, Context = ctx,
                 Success = True, actionsToProcess = []\<rparr> (snapshots d)\<rparr>,
            w1, map Name acts)"
      and nm: "map ResultName rs = map Name acts" by blast
    from nm have len: "length rs = length acts" by (metis length_map)
    show ?thesis
      apply (rule exI[of _ None])
      apply (rule exI[of _ "\<lparr>Id' = jobId, Event = ev, ActionsResults = rs, Context = ctx,
                 Success = True, actionsToProcess = []\<rparr>"])
      apply (rule exI[of _ w1])
      apply (rule exI[of _ "map Name acts"])
      using run ok len by simp
  next
    assume "\<exists>pre a post w1 cause w2. acts = pre @ a # post
        \<and> succeedAll ctx ev pre w = Some w1 \<and> Do a ctx ev w1 = (Inl cause, w2)"
    then obtain pre a post w1 cause w2 where split: "acts = pre @ a # post"
      and ok: "succeedAll ctx ev pre w = Some w1" and bad: "Do a ctx ev w1 = (Inl cause, w2)"
      by blast
    from handleEventByActions_fails[OF ok bad, of post jobId d] obtain rs where
      run: "handleEventByActions ctx ev (pre @ a # post) jobId d w =
           (Some (Errorf (Name a @ '' action failed: '' @ cause)),
            d\<lparr>snapshots := fmupd jobId
                \<lparr>Id' = jobId, Event = ev, ActionsResults = rs, Context = ctx,
                 Success = False, actionsToProcess = a # post\<rparr> (snapshots d)\<rparr>,
            w2, map Name pre @ [Name a])"
      and nm: "map ResultName rs = map Name pre" by blast
    from nm have len: "length rs = length pre" by (metis length_map)
    note none = succeedAll_fails[OF ok bad, of post]
    show ?thesis
      apply (rule exI[of _ "Some (Errorf (Name a @ '' action failed: '' @ cause))"])
      apply (rule exI[of _ "\<lparr>Id' = jobId, Event = ev, ActionsResults = rs, Context = ctx,
                 Success = False, actionsToProcess = a # post\<rparr>"])
      apply (rule exI[of _ w2])
      apply (rule exI[of _ "map Name pre @ [Name a]"])
      using run none len split by (simp add: suffix_def)
  qed
qed


lemma handleEventByActions_shape:
  "\<exists>e snap w' called. handleEventByActions ctx ev acts jobId d w =
      (e, d\<lparr>snapshots := fmupd jobId snap (snapshots d)\<rparr>, w', called)"
proof -
  obtain e snap w' called where
    "processActions ctx ev acts \<lparr>Id' = jobId, Event = ev, ActionsResults = [], Context = ctx,
        Success = False, actionsToProcess = acts\<rparr> w = (e, snap, w', called)"
    by (cases "processActions ctx ev acts \<lparr>Id' = jobId, Event = ev, ActionsResults = [],
        Context = ctx, Success = False, actionsToProcess = acts\<rparr> w") auto
  then have "handleEventByActions ctx ev acts jobId d w =
      (e, d\<lparr>snapshots := fmupd jobId snap (snapshots d)\<rparr>, w', called)"
    by (simp add: handleEventByActions_def)
  then show ?thesis by (intro exI)
qed

lemma HandleEvent_handleEventByActions:
  "HandleEvent ctx ev d w =
     (currentJobId d,
      handleEventByActions ctx ev (actions d) (currentJobId d)
        (d\<lparr>currentJobId := currentJobId d + 1\<rparr>) w)"
  by (simp add: HandleEvent_def Let_def)

lemma fst_HandleEvent: "fst (HandleEvent ctx ev d w) = currentJobId d"
  by (simp add: HandleEvent_def Let_def)

lemma HandleEvent_shape:
  "\<exists>e snap w' called. HandleEvent ctx ev d w =
      (currentJobId d, e,
       d\<lparr>currentJobId := currentJobId d + 1,
         snapshots := fmupd (currentJobId d) snap (snapshots d)\<rparr>, w', called)"
proof -
  obtain e snap w' called where
    "handleEventByActions ctx ev (actions d) (currentJobId d)
        (d\<lparr>currentJobId := currentJobId d + 1\<rparr>) w =
      (e, (d\<lparr>currentJobId := currentJobId d + 1\<rparr>)
            \<lparr>snapshots := fmupd (currentJobId d) snap
                (snapshots (d\<lparr>currentJobId := currentJobId d + 1\<rparr>))\<rparr>, w', called)"
    using handleEventByActions_shape[of ctx ev "actions d" "currentJobId d"
        "d\<lparr>currentJobId := currentJobId d + 1\<rparr>" w] by auto
  then have "HandleEvent ctx ev d w =
      (currentJobId d, e,
       d\<lparr>currentJobId := currentJobId d + 1,
         snapshots := fmupd (currentJobId d) snap (snapshots d)\<rparr>, w', called)"
    by (simp add: HandleEvent_def Let_def)
  then show ?thesis by (intro exI)
qed

lemma HandleEvent_runs_registry:
  "\<exists>e snap w2 called.
      HandleEvent ctx ev d w =
        (currentJobId d, e,
         d\<lparr>currentJobId := currentJobId d + 1,
           snapshots := fmupd (currentJobId d) snap (snapshots d)\<rparr>, w2, called)
      \<and> prefix called (map Name (actions d))
      \<and> length (ActionsResults snap) + length (actionsToProcess snap) = length (actions d)
      \<and> suffix (actionsToProcess snap) (actions d)
      \<and> Event snap = ev \<and> Id' snap = currentJobId d"
proof -
  from handleEventByActions_summary[of ctx ev "actions d" "currentJobId d"
      "d\<lparr>currentJobId := currentJobId d + 1\<rparr>" w]
  obtain e snap w' called where
    run: "handleEventByActions ctx ev (actions d) (currentJobId d)
        (d\<lparr>currentJobId := currentJobId d + 1\<rparr>) w =
       (e, d\<lparr>currentJobId := currentJobId d + 1\<rparr>\<lparr>snapshots := fmupd (currentJobId d) snap
          (snapshots (d\<lparr>currentJobId := currentJobId d + 1\<rparr>))\<rparr>, w', called)"
    and facts: "Id' snap = currentJobId d" "Event snap = ev"
      "length (ActionsResults snap) + length (actionsToProcess snap) = length (actions d)"
      "suffix (actionsToProcess snap) (actions d)"
      "prefix called (map Name (actions d))"
    by blast
  show ?thesis
    apply (rule exI[of _ e], rule exI[of _ snap], rule exI[of _ w'], rule exI[of _ called])
    using run facts by (simp add: HandleEvent_handleEventByActions)
qed

lemma RetryJob_shape:
  assumes "RetryJob jobId d w = Returns (e, d', w', called)"
  shows "(d' = d \<and> w' = w \<and> called = [] \<and> e \<noteq> None) \<or>
         (\<exists>stored snap. fmlookup (snapshots d) jobId = Some stored \<and> \<not> Success stored
            \<and> d' = d\<lparr>snapshots := fmupd jobId snap (snapshots d)\<rparr>)"
proof (cases "validateRetryJobId jobId d")
  case NilDereference
  with assms show ?thesis by (simp add: RetryJob_def)
next
  case (Returns r)
  show ?thesis
  proof (cases r)
    case (Some err)
    with Returns assms show ?thesis by (auto simp: RetryJob_def)
  next
    case None
    with Returns obtain stored where st: "fmlookup (snapshots d) jobId = Some stored"
      and ns: "\<not> Success stored"
      by (auto simp: validateRetryJobId_def split: if_splits option.splits)
    obtain e2 snap w2 c2 where
      "handleEventByActions (Context stored) (Event stored) (actionsToProcess stored) jobId d w
         = (e2, d\<lparr>snapshots := fmupd jobId snap (snapshots d)\<rparr>, w2, c2)"
      using handleEventByActions_shape[of "Context stored" "Event stored"
          "actionsToProcess stored" jobId d w] by auto
    with None Returns st assms have "d' = d\<lparr>snapshots := fmupd jobId snap (snapshots d)\<rparr>"
      by (simp add: RetryJob_def)
    with st ns show ?thesis by blast
  qed
qed


section \<open>The registry and the snapshot store do not interfere\<close>

lemma AddAction_frame:
  "snapshots (snd (AddAction act d)) = snapshots d \<and>
   currentJobId (snd (AddAction act d)) = currentJobId d"
  by (simp add: AddAction_def)

lemma RemoveAction_frame:
  "snapshots (snd (RemoveAction act d)) = snapshots d \<and>
   currentJobId (snd (RemoveAction act d)) = currentJobId d"
  by (simp add: RemoveAction_def split: option.splits)






section \<open>Invariant of the reachable states\<close>

lemma dispatched_inv:
  "dispatched ids d \<Longrightarrow>
     ids = map int [0..<length ids] \<and> currentJobId d = int (length ids)
     \<and> fmdom (snapshots d) = fset_of_list ids"
proof (induction rule: dispatched.induct)
  case fresh
  show ?case by (simp add: NewEventDispatcher_def)
next
  case (add ids d act e d')
  from add.hyps(2) have "d' = snd (AddAction act d)" by simp
  with add.IH AddAction_frame[of act d] show ?case by simp
next
  case (remove ids d act e d')
  from remove.hyps(2) have "d' = snd (RemoveAction act d)" by simp
  with remove.IH RemoveAction_frame[of act d] show ?case by simp
next
  case (handle ids d ctx event w jobId e d' w' called)
  from HandleEvent_shape[of ctx event d w] handle.hyps(2) obtain snap where
    j: "jobId = currentJobId d"
    and d': "d' = d\<lparr>currentJobId := currentJobId d + 1,
                     snapshots := fmupd (currentJobId d) snap (snapshots d)\<rparr>"
    by auto
  from handle.IH have a: "ids = map int [0..<length ids]" and b: "currentJobId d = int (length ids)"
    and c: "fmdom (snapshots d) = fset_of_list ids" by simp_all
  have "ids @ [jobId] = map int [0..<length (ids @ [jobId])]"
    using a b j by simp
  moreover have "currentJobId d' = int (length (ids @ [jobId]))" using d' b by simp
  moreover have "fmdom (snapshots d') = fset_of_list (ids @ [jobId])"
    using d' c j by auto
  ultimately show ?case by blast
next
  case (retry ids d jobId w e d' w' called)
  from RetryJob_shape[OF retry.hyps(2)] have
    "fmdom (snapshots d') = fmdom (snapshots d) \<and> currentJobId d' = currentJobId d"
    by (auto simp: fmdomI finsert_absorb)
  with retry.IH show ?case by simp
qed

lemma dispatched_member:
  assumes "dispatched ids d"
  shows "(jobId |\<in>| fmdom (snapshots d)) = (0 \<le> jobId \<and> jobId < currentJobId d)"
    and "(jobId \<in> set ids) = (0 \<le> jobId \<and> jobId < currentJobId d)"
proof -
  from dispatched_inv[OF assms] have a: "ids = map int [0..<length ids]"
    and b: "currentJobId d = int (length ids)"
    and c: "fmdom (snapshots d) = fset_of_list ids" by simp_all
  have "set ids = int ` {0..<length ids}" using a by (metis set_map set_upt)
  then show m: "(jobId \<in> set ids) = (0 \<le> jobId \<and> jobId < currentJobId d)"
    using b by (auto simp: image_iff intro: bexI[of _ "nat jobId"])
  show "(jobId |\<in>| fmdom (snapshots d)) = (0 \<le> jobId \<and> jobId < currentJobId d)"
    using m c by (simp add: fset_of_list_elem)
qed

lemma dispatched_card:
  assumes "dispatched ids d"
  shows "int (fcard (fmdom (snapshots d))) = currentJobId d"
proof -
  from dispatched_inv[OF assms] have a: "ids = map int [0..<length ids]"
    and b: "currentJobId d = int (length ids)"
    and c: "fmdom (snapshots d) = fset_of_list ids" by simp_all
  have "distinct (map int [0..<length ids])" by (simp add: distinct_map)
  with a have "distinct ids" by simp
  then have "card (set ids) = length ids" by (rule distinct_card)
  then have "fcard (fset_of_list ids) = length ids"
    by (simp add: fcard.rep_eq fset_of_list.rep_eq)
  with b c show ?thesis by simp
qed

lemma RetryJob_returns:
  assumes "dispatched ids d"
  shows "\<exists>e d' w' called. RetryJob jobId d w = Returns (e, d', w', called)"
proof (cases "jobId \<ge> int (fcard (fmdom (snapshots d))) \<or> jobId < 0")
  case True
  then have "RetryJob jobId d w = Returns (Some ErrorInvalidJobId, d, w, [])"
    by (simp add: RetryJob_def validateRetryJobId_def)
  then show ?thesis by simp
next
  case False
  with dispatched_card[OF assms] dispatched_member(1)[OF assms, of jobId]
  have "jobId |\<in>| fmdom (snapshots d)" by simp
  then obtain s where s: "fmlookup (snapshots d) jobId = Some s"
    by (auto simp: fmlookup_dom_iff)
  have "validateRetryJobId jobId d =
      Returns (if Success s then Some ErrorSucceededJobRetryCall else None)"
    using False s by (simp add: validateRetryJobId_def)
  then obtain r where r: "RetryJob jobId d w = Returns r"
    using s by (cases "Success s") (simp_all add: RetryJob_def)
  obtain e d' w' called where "r = (e, d', w', called)" by (cases r) auto
  with r show ?thesis by simp
qed


lemma dispatched_AddAction: "dispatched ids d \<Longrightarrow> dispatched ids (snd (AddAction act d))"
  by (metis dispatched.add prod.collapse)

lemma dispatched_RemoveAction: "dispatched ids d \<Longrightarrow> dispatched ids (snd (RemoveAction act d))"
  by (metis dispatched.remove prod.collapse)

lemma dispatched_HandleEvent:
  "dispatched ids d \<Longrightarrow>
   dispatched (ids @ [currentJobId d]) (fst (snd (snd (HandleEvent ctx ev d w))))"
proof -
  assume h: "dispatched ids d"
  from HandleEvent_shape[of ctx ev d w] obtain e d' w' called where
    eq: "HandleEvent ctx ev d w = (currentJobId d, e, d', w', called)" by blast
  from dispatched.handle[OF h eq] eq show ?thesis by simp
qed

section \<open>Evaluation of the test states\<close>

lemma fixture_names:
  "Name actionStraightCheck = ''straight_check''"
  "Name actionDivider = ''divider''"
  "Name actionEnpty = ''empty_action''"
  by (simp_all add: actionStraightCheck_def actionDivider_def actionEnpty_def)

lemma Do_actionStraightCheck:
  "Do actionStraightCheck ctx input w = (case ext w of None \<Rightarrow> Inr None | Some err \<Rightarrow> Inl err, w)"
  by (simp add: actionStraightCheck_def)

lemma Do_actionEnpty: "Do actionEnpty ctx input w = (Inr None, w)"
  by (simp add: actionEnpty_def)

lemma Do_actionDivider_nil: "Do actionDivider ctx None w = (Inl ''no dividend passed'', w)"
  by (simp add: actionDivider_def index_def)

lemma Do_actionDivider_10_5:
  "Do actionDivider ctx event_10_5 w = (Inr (Some [''result'' \<mapsto> DInt 2]), w)"
  by (simp add: actionDivider_def index_def event_10_5_def signed_divide_int_def)

lemma Do_actionDivider_10_0:
  "Do actionDivider ctx event_10_0 w =
     (Inl ''the passed divider shouldn't be equal to zero'', w)"
  by (simp add: actionDivider_def index_def event_10_0_def)

lemma buildDispatcher_eq:
  "buildDispatcher = \<lparr>actions = [actionStraightCheck, actionDivider], currentJobId = 0,
      snapshots = fmempty\<rparr>"
  by (simp add: buildDispatcher_def AddAction_def NewEventDispatcher_def fixture_names)

lemma emptyThenCheck_eq:
  "emptyThenCheck = \<lparr>actions = [actionEnpty, actionStraightCheck], currentJobId = 0,
      snapshots = fmempty\<rparr>"
  by (simp add: emptyThenCheck_def AddAction_def NewEventDispatcher_def fixture_names)

lemma dispatched_buildDispatcher: "dispatched [] buildDispatcher"
  unfolding buildDispatcher_def
  by (intro dispatched_AddAction dispatched.fresh)

lemma dispatched_afterSucceededJob: "dispatched [0] afterSucceededJob"
proof -
  have "currentJobId (buildDispatcher :: (unit, dyn, string option) EventDispatcher) = 0"
    by (simp add: buildDispatcher_def AddAction_frame NewEventDispatcher_def)
  with dispatched_HandleEvent[OF dispatched_buildDispatcher, of "()" event_10_5 world0]
  show ?thesis by (simp add: afterSucceededJob_def stateAfterHandleEvent_def)
qed

lemma dispatched_afterFailedJob: "dispatched [0] afterFailedJob"
proof -
  have "currentJobId (buildDispatcher :: (unit, dyn, string option) EventDispatcher) = 0"
    by (simp add: buildDispatcher_def AddAction_frame NewEventDispatcher_def)
  with dispatched_HandleEvent[OF dispatched_buildDispatcher, of "()" event_10_0 world0]
  show ?thesis by (simp add: afterFailedJob_def stateAfterHandleEvent_def)
qed


lemma currentJobId_afterJob:
  "currentJobId afterFailedJob = 1" "currentJobId afterSucceededJob = 1"
  using dispatched_inv[OF dispatched_afterFailedJob] dispatched_inv[OF dispatched_afterSucceededJob]
  by simp_all

lemma afterSucceededJob_eval:
  "map_option (\<lambda>s. (Success s, map ResultName (ActionsResults s), map Name (actionsToProcess s)))
     (fmlookup (snapshots afterSucceededJob) 0) = Some (True, [''straight_check'', ''divider''], [])"
  by (simp add: afterSucceededJob_def stateAfterHandleEvent_def buildDispatcher_eq HandleEvent_def
      handleEventByActions_def Do_actionStraightCheck Do_actionDivider_10_5 fixture_names
      world0_def)

lemma afterFailedJob_eval:
  "map_option (\<lambda>s. (Success s, map ResultName (ActionsResults s), map Name (actionsToProcess s)))
     (fmlookup (snapshots afterFailedJob) 0) = Some (False, [''straight_check''], [''divider''])"
  by (simp add: afterFailedJob_def stateAfterHandleEvent_def buildDispatcher_eq HandleEvent_def
      handleEventByActions_def Do_actionStraightCheck Do_actionDivider_10_0 fixture_names
      world0_def)



lemma afterSecondFails_eq:
  "afterSecondFails =
     \<lparr>actions = [actionEnpty, actionStraightCheck], currentJobId = 1,
      snapshots = fmupd 0
        \<lparr>Id' = 0, Event = event_10_5,
         ActionsResults = [\<lparr>ResultName = ''empty_action'', Input = event_10_5, Output = None,
                            Timestamp = ''t0''\<rparr>],
         Context = (), Success = False, actionsToProcess = [actionStraightCheck]\<rparr> fmempty\<rparr>"
  by (simp add: afterSecondFails_def stateAfterHandleEvent_def emptyThenCheck_eq HandleEvent_def
      handleEventByActions_def Do_actionEnpty Do_actionStraightCheck fixture_names
      worldErr_def setStraightCheckErr_def world0_def)

lemma RetryJob_afterSecondFails:
  "RetryJob 0 afterSecondFails world0 =
     Returns (None,
       \<lparr>actions = [actionEnpty, actionStraightCheck], currentJobId = 1,
        snapshots = fmupd 0
          \<lparr>Id' = 0, Event = event_10_5,
           ActionsResults = [\<lparr>ResultName = ''straight_check'', Input = event_10_5,
                              Output = None, Timestamp = ''t0''\<rparr>],
           Context = (), Success = True, actionsToProcess = []\<rparr> fmempty\<rparr>,
       world0, [''straight_check''])"
  by (simp add: afterSecondFails_eq RetryJob_def validateRetryJobId_def fcard_finsert_if
      handleEventByActions_def Do_actionStraightCheck fixture_names world0_def)

lemma HandleEvent_nil_buildDispatcher:
  "HandleEvent () None buildDispatcher world0 =
     (0, Some (Errorf ''divider action failed: no dividend passed''),
      \<lparr>actions = [actionStraightCheck, actionDivider], currentJobId = 1,
       snapshots = fmupd 0
         \<lparr>Id' = 0, Event = None,
          ActionsResults = [\<lparr>ResultName = ''straight_check'', Input = None, Output = None,
                             Timestamp = ''t0''\<rparr>],
          Context = (), Success = False, actionsToProcess = [actionDivider]\<rparr> fmempty\<rparr>,
      world0, [''straight_check'', ''divider''])"
  by (simp add: buildDispatcher_eq HandleEvent_def Let_def handleEventByActions_def
      Do_actionStraightCheck Do_actionDivider_nil fixture_names world0_def)

lemma HandleEvent_nil_emptyThenCheck:
  "HandleEvent () None emptyThenCheck world0 =
     (0, None,
      \<lparr>actions = [actionEnpty, actionStraightCheck], currentJobId = 1,
       snapshots = fmupd 0
         \<lparr>Id' = 0, Event = None,
          ActionsResults = [\<lparr>ResultName = ''empty_action'', Input = None, Output = None,
                             Timestamp = ''t0''\<rparr>,
                            \<lparr>ResultName = ''straight_check'', Input = None, Output = None,
                             Timestamp = ''t0''\<rparr>],
          Context = (), Success = True, actionsToProcess = []\<rparr> fmempty\<rparr>,
      world0, [''empty_action'', ''straight_check''])"
  by (simp add: emptyThenCheck_eq HandleEvent_def Let_def handleEventByActions_def
      Do_actionStraightCheck Do_actionEnpty fixture_names world0_def)

section \<open>Fail-fast execution\<close>

text \<open>
  Claim C1. In every execution attempt, be it the original dispatch or a retry (both run
  \<open>handleEventByActions\<close> on the attempt's pending list \<open>acts\<close>): if the \<open>k\<close>-th action of
  the list fails, that is, the \<open>k - 1\<close> actions before it succeed and it returns an error,
  then the snapshot stored under the job id has \<open>Success = False\<close>, exactly \<open>k - 1\<close>
  action results, a pending list that is the plan from the \<open>k\<close>-th action on (so its
  first element is the failed action), the returned error names the failed action and
  its cause, and the actions called are exactly the first \<open>k\<close>: none after the \<open>k\<close>-th.
\<close>

theorem kth_action_fails:
  assumes "0 < k" and "k \<le> length acts"
    and "succeedAll ctx event (take (k - 1) acts) w = Some w1"
    and "Do (acts ! (k - 1)) ctx event w1 = (Inl cause, w2)"
  shows "\<exists>snap. handleEventByActions ctx event acts jobId d w =
             (Some (Errorf (Name (acts ! (k - 1)) @ '' action failed: '' @ cause)),
              d\<lparr>snapshots := fmupd jobId snap (snapshots d)\<rparr>, w2, map Name (take k acts))
           \<and> Success snap = False
           \<and> length (ActionsResults snap) = k - 1
           \<and> actionsToProcess snap = drop (k - 1) acts
           \<and> hd (actionsToProcess snap) = acts ! (k - 1)"
proof -
  let ?pre = "take (k - 1) acts" and ?a = "acts ! (k - 1)" and ?post = "drop k acts"
  from assms(1,2) have split: "acts = ?pre @ ?a # ?post"
    by (metis Suc_pred' id_take_nth_drop less_eq_Suc_le)
  from assms(1,2) have lp: "length ?pre = k - 1" by simp
  from assms(1,2) have tk: "take k acts = ?pre @ [?a]"
    by (metis Suc_pred' less_eq_Suc_le take_Suc_conv_app_nth)
  from assms(1,2) have dr: "drop (k - 1) acts = ?a # ?post"
    by (metis Cons_nth_drop_Suc Suc_pred' less_eq_Suc_le)
  let ?result = "\<lparr>Id' = jobId, Event = event, ActionsResults = [], Context = ctx,
                   Success = False, actionsToProcess = acts\<rparr>"
  have "actionsToProcess ?result = ?pre @ ?a # ?post" using split by simp
  from processActions_fails[OF assms(3,4) this] obtain rs where
    run: "processActions ctx event (?pre @ ?a # ?post) ?result w =
           (Some (Errorf (Name ?a @ '' action failed: '' @ cause)),
            ?result\<lparr>ActionsResults := ActionsResults ?result @ rs, actionsToProcess := ?a # ?post\<rparr>,
            w2, map Name ?pre @ [Name ?a])"
    and nm: "map ResultName rs = map Name ?pre"
    by blast
  from nm lp have lrs: "length rs = k - 1" by (metis length_map)
  let ?snap = "?result\<lparr>ActionsResults := ActionsResults ?result @ rs,
                        actionsToProcess := ?a # ?post\<rparr>"
  from run split have run': "processActions ctx event acts ?result w =
           (Some (Errorf (Name ?a @ '' action failed: '' @ cause)), ?snap,
            w2, map Name ?pre @ [Name ?a])" by simp
  have "handleEventByActions ctx event acts jobId d w =
             (Some (Errorf (Name ?a @ '' action failed: '' @ cause)),
              d\<lparr>snapshots := fmupd jobId ?snap (snapshots d)\<rparr>, w2, map Name (take k acts))"
    unfolding handleEventByActions_def Let_def run' using tk by simp
  moreover have "Success ?snap = False" by simp
  moreover have "length (ActionsResults ?snap) = k - 1" using lrs by simp
  moreover have "actionsToProcess ?snap = drop (k - 1) acts" using dr by simp
  moreover have "hd (actionsToProcess ?snap) = ?a" by simp
  ultimately show ?thesis by blast
qed

text \<open>
  The run of \<^verbatim>\<open>TestHandleEventWithFail\<close>: the divider, second of two actions, rejects a
  zero divider.
\<close>

theorem kth_action_fails_witness:
  "(0::nat) < 2 \<and> 2 \<le> length [actionStraightCheck, actionDivider :: (unit, dyn, string option) Action]
   \<and> succeedAll () (Some [''dividend'' \<mapsto> DInt 10, ''divider'' \<mapsto> DInt 0])
        (take (2 - 1) [actionStraightCheck, actionDivider]) \<lparr>clock = ''t0'', ext = None\<rparr>
       = Some \<lparr>clock = ''t0'', ext = None\<rparr>
   \<and> Do ([actionStraightCheck, actionDivider] ! (2 - 1)) ()
        (Some [''dividend'' \<mapsto> DInt 10, ''divider'' \<mapsto> DInt 0]) \<lparr>clock = ''t0'', ext = None\<rparr>
       = (Inl ''the passed divider shouldn't be equal to zero'', \<lparr>clock = ''t0'', ext = None\<rparr>)
   \<and> (\<exists>snap. handleEventByActions () (Some [''dividend'' \<mapsto> DInt 10, ''divider'' \<mapsto> DInt 0])
          [actionStraightCheck, actionDivider] 0 NewEventDispatcher \<lparr>clock = ''t0'', ext = None\<rparr> =
             (Some (Errorf (''divider action failed: the passed divider shouldn't be equal to zero'')),
              NewEventDispatcher\<lparr>snapshots := fmupd 0 snap (snapshots NewEventDispatcher)\<rparr>,
              \<lparr>clock = ''t0'', ext = None\<rparr>, [''straight_check'', ''divider''])
           \<and> Success snap = False
           \<and> length (ActionsResults snap) = 1
           \<and> map Name (actionsToProcess snap) = [''divider''])"
proof -
  let ?acts = "[actionStraightCheck, actionDivider :: (unit, dyn, string option) Action]"
  let ?ev = "Some [''dividend'' \<mapsto> DInt 10, ''divider'' \<mapsto> DInt 0]"
  let ?w = "\<lparr>clock = ''t0'', ext = None :: string option\<rparr>"
  have h1: "(0::nat) < 2" by simp
  have h2: "2 \<le> length ?acts" by simp
  have h3: "succeedAll () ?ev (take (2 - 1) ?acts) ?w = Some ?w"
    by (simp add: actionStraightCheck_def)
  have h4: "Do (?acts ! (2 - 1)) () ?ev ?w
       = (Inl ''the passed divider shouldn't be equal to zero'', ?w)"
    by (simp add: actionDivider_def index_def)
  from kth_action_fails[OF h1 h2 h3 h4, of 0 NewEventDispatcher]
  obtain snap where s: "handleEventByActions () ?ev ?acts 0 NewEventDispatcher ?w =
             (Some (Errorf (Name (?acts ! (2 - 1)) @ '' action failed: '' @ ''the passed divider shouldn't be equal to zero'')),
              NewEventDispatcher\<lparr>snapshots := fmupd 0 snap (snapshots NewEventDispatcher)\<rparr>, ?w, map Name (take 2 ?acts))"
     "Success snap = False" "length (ActionsResults snap) = 2 - 1"
     "actionsToProcess snap = drop (2 - 1) ?acts" by blast
  have a: "map Name (actionsToProcess snap) = [''divider'']"
    using s(4) by (simp add: actionDivider_def)
  have b: "length (ActionsResults snap) = 1" using s(3) by simp
  have c: "handleEventByActions () ?ev ?acts 0 NewEventDispatcher ?w =
             (Some (Errorf (''divider action failed: the passed divider shouldn't be equal to zero'')),
              NewEventDispatcher\<lparr>snapshots := fmupd 0 snap (snapshots NewEventDispatcher)\<rparr>,
              ?w, [''straight_check'', ''divider''])"
    using s(1) by (simp add: actionDivider_def actionStraightCheck_def)
  show ?thesis
    by (intro conjI h1 h2 h3 h4 exI[of _ snap] a b c s(2))
qed

section \<open>Results across retries\<close>

text \<open>
  Claim C2 says that the number of recorded results plus the number of pending actions
  of a job stays equal to the number of planned actions across retries, each retry
  appending to the results already recorded. The code does not do that:
  \<open>handleEventByActions\<close> starts every attempt, a retry included, from a snapshot with
  an empty result list and stores it over the old one. Here the registry is the empty
  action followed by the straight check, and the straight check fails at dispatch: the
  stored snapshot has one result and one pending action. After the error is cleared the
  retry succeeds, and the stored snapshot has the one result of the retry and nothing
  pending: the result recorded at dispatch is gone, and one is not two.
\<close>

theorem retry_starts_fresh_result_list:
  "storedSummary afterSecondFails 0 = Some (False, [''empty_action''], [''straight_check''])
   \<and> retryOutcome 0 afterSecondFails world0 = Returns (None, [''straight_check''])
   \<and> storedSummary (stateAfterRetryJob 0 afterSecondFails world0) 0
       = Some (True, [''straight_check''], [])"
proof -
  have a: "storedSummary afterSecondFails 0 = Some (False, [''empty_action''], [''straight_check''])"
    by (simp add: afterSecondFails_eq storedSummary_def snapshotSummary_def fixture_names)
  have b: "retryOutcome 0 afterSecondFails world0 = Returns (None, [''straight_check''])"
    by (simp add: retryOutcome_def RetryJob_afterSecondFails)
  have c: "storedSummary (stateAfterRetryJob 0 afterSecondFails world0) 0
       = Some (True, [''straight_check''], [])"
    by (simp add: stateAfterRetryJob_def RetryJob_afterSecondFails storedSummary_def
        snapshotSummary_def)
  show ?thesis by (intro conjI a b c)
qed

section \<open>All actions succeed\<close>

text \<open>
  Claim C3 says that when every action of an execution attempt succeeds, the stored
  snapshot has \<open>Success = True\<close>, as many action results as there were actions
  registered at dispatch time, and an empty pending list. The code breaks this on a
  retry, through the same fresh result list as in claim C2. Two actions are registered
  when the job is dispatched; the first completes and the straight check fails. The
  error is cleared and the job retried: the one action of the retry attempt succeeds, no
  error is returned and the stored snapshot has \<open>Success = True\<close> and nothing pending,
  but one action result, not two.
\<close>

theorem retry_success_result_count:
  "length (actions emptyThenCheck) = 2
   \<and> afterSecondFails = stateAfterHandleEvent () event_10_5 emptyThenCheck worldErr
   \<and> retryOutcome 0 afterSecondFails world0 = Returns (None, [''straight_check''])
   \<and> storedCounts (stateAfterRetryJob 0 afterSecondFails world0) 0 = Some (True, 1, 0)"
proof -
  have a: "length (actions emptyThenCheck) = 2" by (simp add: emptyThenCheck_eq)
  have b: "retryOutcome 0 afterSecondFails world0 = Returns (None, [''straight_check''])"
    by (simp add: retryOutcome_def RetryJob_afterSecondFails)
  have c: "storedCounts (stateAfterRetryJob 0 afterSecondFails world0) 0 = Some (True, 1, 0)"
    by (simp add: stateAfterRetryJob_def RetryJob_afterSecondFails storedCounts_def)
  show ?thesis by (intro conjI a b c afterSecondFails_def)
qed

section \<open>Registry changes after a failed dispatch\<close>




section \<open>The nil event\<close>

text \<open>
  Claim C5 says that \<open>HandleEvent\<close> with a nil event returns an error of the
  invalid-event kind before any action is executed. The code has no check of the event.
  With the empty action and the straight check registered, actions that do not read
  their input, the call with a nil event executes both actions and returns no error,
  and the stored job has succeeded.
\<close>

theorem nil_event_not_rejected:
  "fst (snd (HandleEvent () None emptyThenCheck world0)) = None
   \<and> snd (snd (snd (snd (HandleEvent () None emptyThenCheck world0))))
       = [''empty_action'', ''straight_check'']
   \<and> storedSummary (stateAfterHandleEvent () None emptyThenCheck world0) 0
       = Some (True, [''empty_action'', ''straight_check''], [])"
  by (simp add: HandleEvent_nil_emptyThenCheck stateAfterHandleEvent_def storedSummary_def
      snapshotSummary_def)

text \<open>
  Claim C9, as stated, says that a call with a nil event consumes no job id and records
  no snapshot. In \<^verbatim>\<open>TestNilEventPassing\<close>'s call the nil event gets id 0 and fails; a
  snapshot is stored under 0, the counter is 1, and the next event gets id 1.
\<close>

theorem nil_event_job_id_counterexample:
  "fst (HandleEvent () None buildDispatcher world0) = 0
   \<and> fst (snd (HandleEvent () None buildDispatcher world0))
       = Some (Errorf ''divider action failed: no dividend passed'')
   \<and> storedSummary (stateAfterHandleEvent () None buildDispatcher world0) 0
       = Some (False, [''straight_check''], [''divider''])
   \<and> currentJobId (stateAfterHandleEvent () None buildDispatcher world0) = 1
   \<and> fst (HandleEvent () event_10_5 (stateAfterHandleEvent () None buildDispatcher world0) world0)
       = 1"
  by (simp add: HandleEvent_nil_buildDispatcher stateAfterHandleEvent_def storedSummary_def
      snapshotSummary_def fixture_names fst_HandleEvent)

text \<open>
  Claim C9, amended. A call of \<open>HandleEvent\<close> with a nil event takes a job id like any
  other call: it returns the current value of the counter, advances the counter by one,
  and records under the returned id a snapshot of that id whose event is nil; the next
  call of \<open>HandleEvent\<close> returns the next id.
\<close>

theorem nil_event_consumes_job_id:
  "fst (HandleEvent ctx None d w) = currentJobId d
   \<and> currentJobId (stateAfterHandleEvent ctx None d w) = currentJobId d + 1
   \<and> map_option Event (fmlookup (snapshots (stateAfterHandleEvent ctx None d w)) (currentJobId d))
       = Some None
   \<and> map_option Id' (fmlookup (snapshots (stateAfterHandleEvent ctx None d w)) (currentJobId d))
       = Some (currentJobId d)
   \<and> fst (HandleEvent ctx' event' (stateAfterHandleEvent ctx None d w) w') = currentJobId d + 1"
proof -
  from HandleEvent_runs_registry[of ctx None d w] obtain e snap w2 called where
    run: "HandleEvent ctx None d w =
        (currentJobId d, e,
         d\<lparr>currentJobId := currentJobId d + 1,
           snapshots := fmupd (currentJobId d) snap (snapshots d)\<rparr>, w2, called)"
    and ev: "Event snap = None" and jid: "Id' snap = currentJobId d" by auto
  show ?thesis
    using ev jid by (simp add: run stateAfterHandleEvent_def fst_HandleEvent)
qed

section \<open>Job identifiers\<close>

text \<open>
  Claim C6. On a dispatcher reached from a new one by any calls of the public methods,
  the ids returned by the successive calls of \<open>HandleEvent\<close> are \<open>0, 1, 2, \<dots>\<close> in call
  order, whatever the outcome of the earlier jobs (the steps of \<open>dispatched\<close> put no
  condition on the returned error); they are pairwise distinct; the next call returns
  the number of calls made so far and advances the counter by one; and \<open>RetryJob\<close>,
  which returns no id, leaves the counter where it is.
\<close>

theorem job_ids_increase:
  assumes "dispatched ids d"
  shows "ids = map int [0..<length ids] \<and> distinct ids
    \<and> fst (HandleEvent ctx event d w) = int (length ids)
    \<and> currentJobId (fst (snd (snd (HandleEvent ctx event d w)))) = int (length ids) + 1
    \<and> (\<forall>jobId w e d' w' called.
          RetryJob jobId d w = Returns (e, d', w', called) \<longrightarrow> currentJobId d' = currentJobId d)"
proof -
  from dispatched_inv[OF assms] have a: "ids = map int [0..<length ids]"
    and b: "currentJobId d = int (length ids)" by simp_all
  have "distinct (map int [0..<length ids])" by (simp add: distinct_map)
  with a have dist: "distinct ids" by simp
  from HandleEvent_shape[of ctx event d w] b
  have h: "fst (HandleEvent ctx event d w) = int (length ids)"
    and h2: "currentJobId (fst (snd (snd (HandleEvent ctx event d w)))) = int (length ids) + 1"
    by auto
  have r: "\<forall>jobId w e d' w' called.
          RetryJob jobId d w = Returns (e, d', w', called) \<longrightarrow> currentJobId d' = currentJobId d"
  proof (intro allI impI)
    fix jobId w e d' w' called
    assume "RetryJob jobId d w = Returns (e, d', w', called)"
    from RetryJob_shape[OF this] show "currentJobId d' = currentJobId d" by auto
  qed
  show ?thesis by (intro conjI a dist h h2 r)
qed

text \<open>
  After a failed first job the next event gets id 1, and a retry keeps the counter.
\<close>

theorem job_ids_increase_witness:
  "dispatched [0] afterFailedJob
   \<and> [0] = map int [0..<length [0::int]]
   \<and> fst (HandleEvent () event_10_5 afterFailedJob world0) = 1
   \<and> currentJobId (fst (snd (snd (HandleEvent () event_10_5 afterFailedJob world0)))) = 2
   \<and> (\<exists>e d' w' called. RetryJob 0 afterFailedJob world0 = Returns (e, d', w', called)
         \<and> currentJobId d' = 1)"
proof -
  note t = job_ids_increase[OF dispatched_afterFailedJob, of "()" event_10_5 world0]
  from t have a: "[0] = map int [0..<length [0::int]]" by (rule conjunct1)
  from t have b: "fst (HandleEvent () event_10_5 afterFailedJob world0) = 1" by simp
  from t have c: "currentJobId (fst (snd (snd (HandleEvent () event_10_5 afterFailedJob world0)))) = 2"
    by simp
  from t have r: "\<forall>jobId w e d' w' called.
          RetryJob jobId afterFailedJob w = Returns (e, d', w', called)
            \<longrightarrow> currentJobId d' = currentJobId afterFailedJob" by simp
  from RetryJob_returns[OF dispatched_afterFailedJob, of 0 world0] obtain e d' w' called where
    eq: "RetryJob 0 afterFailedJob world0 = Returns (e, d', w', called)" by blast
  with r have "currentJobId d' = currentJobId afterFailedJob" by blast
  with eq have d: "\<exists>e d' w' called. RetryJob 0 afterFailedJob world0 = Returns (e, d', w', called)
         \<and> currentJobId d' = 1" by (simp add: currentJobId_afterJob)
  show ?thesis by (intro conjI dispatched_afterFailedJob a b c d)
qed

section \<open>Rejected retries\<close>

text \<open>
  Claim C7. On a reachable dispatcher, \<open>RetryJob\<close> of a job whose stored snapshot has
  \<open>Success = True\<close> returns the error \<open>ErrorSucceededJobRetryCall\<close>, calls no action,
  and leaves the dispatcher (that snapshot included) and the world unchanged.
\<close>

theorem retry_succeeded_job:
  assumes "dispatched ids d"
    and "fmlookup (snapshots d) jobId = Some s"
    and "Success s"
  shows "RetryJob jobId d w = Returns (Some ErrorSucceededJobRetryCall, d, w, [])"
proof -
  from assms(2) have "jobId |\<in>| fmdom (snapshots d)" by (rule fmdomI)
  with dispatched_member(1)[OF assms(1), of jobId] dispatched_card[OF assms(1)]
  have "\<not> (jobId \<ge> int (fcard (fmdom (snapshots d))) \<or> jobId < 0)" by simp
  with assms(2,3) have "validateRetryJobId jobId d = Returns (Some ErrorSucceededJobRetryCall)"
    by (simp add: validateRetryJobId_def)
  then show ?thesis by (simp add: RetryJob_def)
qed

text \<open>
  \<^verbatim>\<open>TestRetrySucceededJob\<close>.
\<close>

theorem retry_succeeded_job_witness:
  "dispatched [0] afterSucceededJob
   \<and> (\<exists>s. fmlookup (snapshots afterSucceededJob) 0 = Some s \<and> Success s)
   \<and> RetryJob 0 afterSucceededJob world0 =
        Returns (Some ErrorSucceededJobRetryCall, afterSucceededJob, world0, [])"
proof -
  from afterSucceededJob_eval obtain s where
    s: "fmlookup (snapshots afterSucceededJob) 0 = Some s" and ok: "Success s" by auto
  from retry_succeeded_job[OF dispatched_afterSucceededJob s ok, of world0] s ok
  show ?thesis using dispatched_afterSucceededJob by blast
qed

text \<open>
  Claim C8. On a reachable dispatcher, \<open>RetryJob\<close> with a negative id, or with an id that
  no call of \<open>HandleEvent\<close> has returned, returns \<open>ErrorInvalidJobId\<close>, calls no action
  and leaves the dispatcher and the world unchanged.
\<close>

theorem retry_invalid_job_id:
  assumes "dispatched ids d"
    and "jobId < 0 \<or> jobId \<notin> set ids"
  shows "RetryJob jobId d w = Returns (Some ErrorInvalidJobId, d, w, [])"
proof -
  from assms(2) dispatched_member(2)[OF assms(1), of jobId] dispatched_card[OF assms(1)]
  have "jobId \<ge> int (fcard (fmdom (snapshots d))) \<or> jobId < 0" by auto
  then have "validateRetryJobId jobId d = Returns (Some ErrorInvalidJobId)"
    by (simp add: validateRetryJobId_def)
  then show ?thesis by (simp add: RetryJob_def)
qed

text \<open>
  \<^verbatim>\<open>TestRetryInvalidJob\<close>: the ids \<open>-1\<close> and \<open>10\<close> after one job.
\<close>

theorem retry_invalid_job_id_witness:
  "dispatched [0] afterSucceededJob
   \<and> ((- 1 :: int) < 0 \<or> - 1 \<notin> set [0 :: int])
   \<and> RetryJob (- 1) afterSucceededJob world0 =
        Returns (Some ErrorInvalidJobId, afterSucceededJob, world0, [])
   \<and> ((10 :: int) < 0 \<or> 10 \<notin> set [0 :: int])
   \<and> RetryJob 10 afterSucceededJob world0 =
        Returns (Some ErrorInvalidJobId, afterSucceededJob, world0, [])"
proof -
  have h1: "(- 1 :: int) < 0 \<or> - 1 \<notin> set [0 :: int]" by simp
  have h2: "(10 :: int) < 0 \<or> 10 \<notin> set [0 :: int]" by simp
  show ?thesis
    by (intro conjI dispatched_afterSucceededJob h1 h2
        retry_invalid_job_id[OF dispatched_afterSucceededJob h1]
        retry_invalid_job_id[OF dispatched_afterSucceededJob h2])
qed

section \<open>Keys of the snapshot store\<close>

text \<open>
  Claim C10. On a dispatcher reached by any sequence of public operations, the keys of
  the snapshot store are exactly \<open>0, \<dots>, currentJobId - 1\<close>, which are the ids returned
  so far, and the size of the store equals the counter. Every call of \<open>HandleEvent\<close>,
  for any event (the nil event included) and whatever the outcome of the run, stores a
  snapshot under the id it returns, a key that was not there before, and adds no other
  key. \<open>RetryJob\<close> always returns on such a state and leaves the set of keys as it was.
\<close>

theorem snapshot_store_keys:
  assumes "dispatched ids d"
  shows "fset (fmdom (snapshots d)) = {0..<currentJobId d}
    \<and> fmdom (snapshots d) = fset_of_list ids
    \<and> int (fcard (fmdom (snapshots d))) = currentJobId d
    \<and> fst (HandleEvent ctx event d w) |\<notin>| fmdom (snapshots d)
    \<and> fmdom (snapshots (fst (snd (snd (HandleEvent ctx event d w)))))
        = finsert (fst (HandleEvent ctx event d w)) (fmdom (snapshots d))
    \<and> (\<forall>jobId w. \<exists>e d' w' called. RetryJob jobId d w = Returns (e, d', w', called)
          \<and> fmdom (snapshots d') = fmdom (snapshots d))"
proof -
  have keys: "fset (fmdom (snapshots d)) = {0..<currentJobId d}"
  proof (rule set_eqI)
    fix x
    show "x \<in> fset (fmdom (snapshots d)) \<longleftrightarrow> x \<in> {0..<currentJobId d}"
      using dispatched_member(1)[OF assms, of x] by simp
  qed
  from dispatched_inv[OF assms] have c: "fmdom (snapshots d) = fset_of_list ids" by simp
  note card = dispatched_card[OF assms]
  from HandleEvent_shape[of ctx event d w] obtain e snap w' called where
    eq: "HandleEvent ctx event d w = (currentJobId d, e,
       d\<lparr>currentJobId := currentJobId d + 1,
         snapshots := fmupd (currentJobId d) snap (snapshots d)\<rparr>, w', called)" by blast
  have new: "fst (HandleEvent ctx event d w) |\<notin>| fmdom (snapshots d)"
    using eq dispatched_member(1)[OF assms, of "currentJobId d"] by simp
  have ins: "fmdom (snapshots (fst (snd (snd (HandleEvent ctx event d w)))))
        = finsert (fst (HandleEvent ctx event d w)) (fmdom (snapshots d))"
    using eq by simp
  have retry: "\<forall>jobId w. \<exists>e d' w' called. RetryJob jobId d w = Returns (e, d', w', called)
          \<and> fmdom (snapshots d') = fmdom (snapshots d)"
  proof (intro allI)
    fix jobId w
    from RetryJob_returns[OF assms, of jobId w] obtain e d' w' called where
      r: "RetryJob jobId d w = Returns (e, d', w', called)" by blast
    from RetryJob_shape[OF r] have "fmdom (snapshots d') = fmdom (snapshots d)"
      by (auto simp: fmdomI finsert_absorb)
    with r show "\<exists>e d' w' called. RetryJob jobId d w = Returns (e, d', w', called)
          \<and> fmdom (snapshots d') = fmdom (snapshots d)" by simp
  qed
  show ?thesis by (intro conjI keys c card new ins retry)
qed

text \<open>
  After one failed job, a nil event is stored under the new key 1.
\<close>

theorem snapshot_store_keys_witness:
  "dispatched [0] afterFailedJob
   \<and> fset (fmdom (snapshots afterFailedJob)) = {0..<1}
   \<and> int (fcard (fmdom (snapshots afterFailedJob))) = 1
   \<and> fst (HandleEvent () None afterFailedJob world0) = 1
   \<and> fmdom (snapshots (fst (snd (snd (HandleEvent () None afterFailedJob world0))))) = {|0, 1|}"
proof -
  note t = snapshot_store_keys[OF dispatched_afterFailedJob, of "()" None world0]
  from t have "fset (fmdom (snapshots afterFailedJob)) = {0..<currentJobId afterFailedJob}"
    by (elim conjE)
  then have a: "fset (fmdom (snapshots afterFailedJob)) = {0..<1}"
    unfolding currentJobId_afterJob .
  from t have "int (fcard (fmdom (snapshots afterFailedJob))) = currentJobId afterFailedJob"
    by (elim conjE)
  then have b: "int (fcard (fmdom (snapshots afterFailedJob))) = 1"
    unfolding currentJobId_afterJob .
  have c: "fst (HandleEvent () None afterFailedJob world0) = 1"
    by (simp add: HandleEvent_def currentJobId_afterJob)
  from t have "fmdom (snapshots (fst (snd (snd (HandleEvent () None afterFailedJob world0)))))
        = finsert (fst (HandleEvent () None afterFailedJob world0)) (fset_of_list [0])"
    by simp
  with c have d: "fmdom (snapshots (fst (snd (snd (HandleEvent () None afterFailedJob world0)))))
      = {|0, 1|}" by auto
  show ?thesis by (intro conjI dispatched_afterFailedJob a b c d)
qed

end
